theory Spec2Isabelle
  imports Main
begin

section \<open>The editor as seen by the shortcuts\<close>

text \<open>
  The shortcuts of \<^verbatim>\<open>core/shortcut_items.js\<close> read the editor through a few queries
  (\<^verbatim>\<open>workspace.options.readOnly\<close>, \<^verbatim>\<open>Blockly.selected\<close> with \<^verbatim>\<open>isDeletable()\<close>,
  \<^verbatim>\<open>isMovable()\<close> and \<^verbatim>\<open>workspace.isFlyout\<close>, \<^verbatim>\<open>Blockly.Gesture.inProgress()\<close>) and act on
  it through calls to external collaborators (\<^verbatim>\<open>e.preventDefault()\<close>, \<^verbatim>\<open>Blockly.hideChaff()\<close>,
  \<^verbatim>\<open>Blockly.clipboard.copy\<close>, \<^verbatim>\<open>Blockly.clipboard.paste\<close>, \<^verbatim>\<open>Blockly.deleteBlock\<close>,
  \<^verbatim>\<open>workspace.undo\<close>). The collaborators are not part of the module, so a call to one is
  recorded, in order, in the field \<open>calls\<close>; the answers to the queries are fields of the
  same record. The workspace, the globals of \<^verbatim>\<open>Blockly\<close> and the event \<^verbatim>\<open>e\<close> are one value:
  a precondition reads it, a callback reads it and returns it updated.
\<close>

record selectable =
  isDeletable :: bool
  isMovable :: bool
  isFlyout :: bool

datatype call =
    PreventDefault
  | HideChaff
  | ClipboardCopy "selectable option"
  | ClipboardPaste
  | DeleteBlock "selectable option"
  | Undo bool

record world =
  readOnly :: bool
  selected :: "selectable option"
  inProgress :: bool
  pasteResult :: bool
  calls :: "call list"

definition preventDefault :: "world \<Rightarrow> world" where
  "preventDefault w = w\<lparr>calls := calls w @ [PreventDefault]\<rparr>"

definition hideChaff :: "world \<Rightarrow> world" where
  "hideChaff w = w\<lparr>calls := calls w @ [HideChaff]\<rparr>"

definition clipboard_copy :: "selectable option \<Rightarrow> world \<Rightarrow> world" where
  "clipboard_copy toCopy w = w\<lparr>calls := calls w @ [ClipboardCopy toCopy]\<rparr>"

text \<open>\<^verbatim>\<open>Blockly.clipboard.paste()\<close> returns what the clipboard reports: the field \<open>pasteResult\<close>.\<close>

definition clipboard_paste :: "world \<Rightarrow> bool \<times> world" where
  "clipboard_paste w = (pasteResult w, w\<lparr>calls := calls w @ [ClipboardPaste]\<rparr>)"

definition deleteBlock :: "selectable option \<Rightarrow> world \<Rightarrow> world" where
  "deleteBlock toDelete w = w\<lparr>calls := calls w @ [DeleteBlock toDelete]\<rparr>"

definition undo :: "bool \<Rightarrow> world \<Rightarrow> world" where
  "undo redo w = w\<lparr>calls := calls w @ [Undo redo]\<rparr>"

text \<open>
  The truth value of \<^verbatim>\<open>Blockly.selected && Blockly.selected.q()\<close>: false when nothing is
  selected, the answer of the query otherwise.
\<close>

definition selectedAnd :: "(selectable \<Rightarrow> bool) \<Rightarrow> world \<Rightarrow> bool" where
  "selectedAnd q w = (case selected w of None \<Rightarrow> False | Some b \<Rightarrow> q b)"

section \<open>Key codes and serialized keys\<close>

text \<open>
  Modelled from the spec: the enumeration of physical key codes (\<^verbatim>\<open>Blockly.utils.KeyCodes\<close>)
  is not in the source. The codes the module names are constructors; \<open>OTHER\<close> stands for
  the rest of the enumeration.
\<close>

datatype KeyCodes =
    ESC | DELETE | BACKSPACE
  | KEY_C | KEY_X | KEY_V | KEY_Z | KEY_Y
  | CTRL | ALT | SHIFT | META
  | OTHER nat

text \<open>
  Modelled from the spec: the key serializer (\<^verbatim>\<open>ShortcutRegistry.createSerializedKey\<close>) is not
  in the source. Section 4.1 of the spec asks for a canonical value of a primary key and an
  unordered collection of modifiers drawn from control, alt, shift and meta: the value here
  is the primary key with, for each of the four modifiers, whether the collection holds it.
\<close>

datatype serializedKey =
  SerializedKey (primary: KeyCodes) (withCtrl: bool) (withAlt: bool) (withShift: bool) (withMeta: bool)

definition modifierKeys :: "KeyCodes set" where
  "modifierKeys = {CTRL, ALT, SHIFT, META}"

definition createSerializedKey :: "KeyCodes \<Rightarrow> KeyCodes list \<Rightarrow> serializedKey" where
  "createSerializedKey keyCode modifiers =
     SerializedKey keyCode (CTRL \<in> set modifiers) (ALT \<in> set modifiers)
       (SHIFT \<in> set modifiers) (META \<in> set modifiers)"

text \<open>
  Modelled from the spec: \<^verbatim>\<open>addKeyMapping\<close> is also called with a bare key code
  (\<^verbatim>\<open>KeyCodes.ESC\<close>, \<^verbatim>\<open>KeyCodes.DELETE\<close>, \<^verbatim>\<open>KeyCodes.BACKSPACE\<close>); as a key of the key map it
  is the key pressed with no modifier.
\<close>

definition bareKey :: "KeyCodes \<Rightarrow> serializedKey" where
  "bareKey keyCode = SerializedKey keyCode False False False False"

section \<open>The shortcut registry\<close>

text \<open>
  Modelled from the spec: \<^verbatim>\<open>Blockly.ShortcutRegistry\<close> is not in the source. Section 3 of the
  spec gives a shortcut a unique name, a precondition whose absence means always eligible,
  and a callback that returns whether it consumed the event; the registry is a map from
  names to shortcuts and a map from serialized keys to ordered lists of names,
  initialized empty.
\<close>

record KeyboardShortcut =
  name :: string
  preconditionFn :: "(world \<Rightarrow> bool) option"
  callback :: "world \<Rightarrow> bool \<times> world"

record registry =
  shortcuts :: "string \<rightharpoonup> KeyboardShortcut"
  keyMap :: "serializedKey \<rightharpoonup> string list"

definition emptyRegistry :: registry where
  "emptyRegistry = \<lparr>shortcuts = Map.empty, keyMap = Map.empty\<rparr>"

datatype error = ShortcutNotRegisteredError

text \<open>
  A call on the registry returns the registry it leaves (\<open>Inr\<close>), or the error it raises
  with the registry as it is when the error is raised (\<open>Inl\<close>).
\<close>

type_synonym result = "(error \<times> registry) + registry"

text \<open>
  Modelled from the spec: \<^verbatim>\<open>register(shortcut)\<close> inserts or replaces the entry under
  \<^verbatim>\<open>shortcut.name\<close>, with no error on replace (section 4.2, under the silent-overwrite
  policy the spec assumes).
\<close>

definition register :: "KeyboardShortcut \<Rightarrow> registry \<Rightarrow> result" where
  "register shortcut r = Inr (r\<lparr>shortcuts := (shortcuts r)(name shortcut \<mapsto> shortcut)\<rparr>)"

text \<open>
  Modelled from the spec: \<^verbatim>\<open>addKeyMapping(serializedKey, name)\<close> appends the name to the
  ordered list of the key, creating the list if absent, and fails with
  \<^verbatim>\<open>ShortcutNotRegisteredError\<close> if the name is not that of a registered shortcut
  (section 4.2).
\<close>

definition addKeyMapping :: "serializedKey \<Rightarrow> string \<Rightarrow> registry \<Rightarrow> result" where
  "addKeyMapping serializedKey shortcutName r =
     (case shortcuts r shortcutName of
        None \<Rightarrow> Inl (ShortcutNotRegisteredError, r)
      | Some _ \<Rightarrow>
          Inr (r\<lparr>keyMap := (keyMap r)(serializedKey \<mapsto>
                 (case keyMap r serializedKey of
                    None \<Rightarrow> [shortcutName]
                  | Some shortcutNames \<Rightarrow> shortcutNames @ [shortcutName]))\<rparr>))"

text \<open>
  Modelled from the spec: \<^verbatim>\<open>resolve(serializedKey, context, event)\<close>, the dispatch of
  section 4.2. The candidates of the key are tried in stored order; a name with no shortcut
  or whose precondition is false is skipped; the callback of an eligible candidate is
  invoked; \<open>true\<close> stops the resolution, handled by that name; \<open>false\<close> continues with the
  next candidate, in the world the callback left. \<open>None\<close> is "unhandled".
\<close>

definition eligible :: "KeyboardShortcut \<Rightarrow> world \<Rightarrow> bool" where
  "eligible shortcut w = (case preconditionFn shortcut of None \<Rightarrow> True | Some p \<Rightarrow> p w)"

fun resolveNames :: "registry \<Rightarrow> string list \<Rightarrow> world \<Rightarrow> string option \<times> world" where
  "resolveNames r [] w = (None, w)"
| "resolveNames r (n # ns) w =
     (case shortcuts r n of
        None \<Rightarrow> resolveNames r ns w
      | Some shortcut \<Rightarrow>
          if eligible shortcut w then
            (case callback shortcut w of
               (True, w') \<Rightarrow> (Some n, w')
             | (False, w') \<Rightarrow> resolveNames r ns w')
          else resolveNames r ns w)"

definition resolve :: "registry \<Rightarrow> serializedKey \<Rightarrow> world \<Rightarrow> string option \<times> world" where
  "resolve r serializedKey w =
     (case keyMap r serializedKey of
        None \<Rightarrow> (None, w)
      | Some shortcutNames \<Rightarrow> resolveNames r shortcutNames w)"

section \<open>The default shortcuts\<close>

text \<open>The enum \<^verbatim>\<open>names\<close>.\<close>

definition names_ESCAPE :: string where "names_ESCAPE = ''escape''"
definition names_DELETE :: string where "names_DELETE = ''delete''"
definition names_COPY :: string where "names_COPY = ''copy''"
definition names_CUT :: string where "names_CUT = ''cut''"
definition names_PASTE :: string where "names_PASTE = ''paste''"
definition names_UNDO :: string where "names_UNDO = ''undo''"
definition names_REDO :: string where "names_REDO = ''redo''"

text \<open>Statements in sequence: an error raised by one call ends the sequence.\<close>

fun runCalls :: "(registry \<Rightarrow> result) list \<Rightarrow> registry \<Rightarrow> result" where
  "runCalls [] r = Inr r"
| "runCalls (c # cs) r = (case c r of Inl e \<Rightarrow> Inl e | Inr r' \<Rightarrow> runCalls cs r')"

definition escapeAction :: KeyboardShortcut where
  "escapeAction =
     \<lparr>name = names_ESCAPE,
      preconditionFn = Some (\<lambda>workspace. \<not> readOnly workspace),
      callback = (\<lambda>w. (True, hideChaff w))\<rparr>"

definition registerEscape :: "registry \<Rightarrow> result" where
  "registerEscape =
     runCalls [register escapeAction, addKeyMapping (bareKey ESC) (name escapeAction)]"

definition deleteShortcut :: KeyboardShortcut where
  "deleteShortcut =
     \<lparr>name = names_DELETE,
      preconditionFn = Some (\<lambda>workspace.
        \<not> readOnly workspace \<and> selectedAnd isDeletable workspace),
      callback = (\<lambda>w.
        let w1 = preventDefault w in
        if inProgress w1 then (False, w1)
        else (True, deleteBlock (selected w1) w1))\<rparr>"

definition registerDelete :: "registry \<Rightarrow> result" where
  "registerDelete =
     runCalls [register deleteShortcut,
       addKeyMapping (bareKey DELETE) (name deleteShortcut),
       addKeyMapping (bareKey BACKSPACE) (name deleteShortcut)]"

definition copyShortcut :: KeyboardShortcut where
  "copyShortcut =
     \<lparr>name = names_COPY,
      preconditionFn = Some (\<lambda>workspace.
        \<not> readOnly workspace \<and> \<not> inProgress workspace \<and>
        selectedAnd (\<lambda>b. isDeletable b \<and> isMovable b) workspace),
      callback = (\<lambda>w.
        let w1 = preventDefault w;
            w2 = hideChaff w1;
            w3 = clipboard_copy (selected w2) w2
        in (True, w3))\<rparr>"

definition registerCopy :: "registry \<Rightarrow> result" where
  "registerCopy =
     runCalls [register copyShortcut,
       addKeyMapping (createSerializedKey KEY_C [CTRL]) (name copyShortcut),
       addKeyMapping (createSerializedKey KEY_C [ALT]) (name copyShortcut),
       addKeyMapping (createSerializedKey KEY_C [META]) (name copyShortcut)]"

definition cutShortcut :: KeyboardShortcut where
  "cutShortcut =
     \<lparr>name = names_CUT,
      preconditionFn = Some (\<lambda>workspace.
        \<not> readOnly workspace \<and> \<not> inProgress workspace \<and>
        selectedAnd (\<lambda>b. isDeletable b \<and> isMovable b \<and> \<not> isFlyout b) workspace),
      callback = (\<lambda>w.
        let w1 = clipboard_copy (selected w) w;
            w2 = deleteBlock (selected w1) w1
        in (True, w2))\<rparr>"

definition registerCut :: "registry \<Rightarrow> result" where
  "registerCut =
     runCalls [register cutShortcut,
       addKeyMapping (createSerializedKey KEY_X [CTRL]) (name cutShortcut),
       addKeyMapping (createSerializedKey KEY_X [ALT]) (name cutShortcut),
       addKeyMapping (createSerializedKey KEY_X [META]) (name cutShortcut)]"

definition pasteShortcut :: KeyboardShortcut where
  "pasteShortcut =
     \<lparr>name = names_PASTE,
      preconditionFn = Some (\<lambda>workspace. \<not> readOnly workspace \<and> \<not> inProgress workspace),
      callback = (\<lambda>w. clipboard_paste w)\<rparr>"

definition registerPaste :: "registry \<Rightarrow> result" where
  "registerPaste =
     runCalls [register pasteShortcut,
       addKeyMapping (createSerializedKey KEY_V [CTRL]) (name pasteShortcut),
       addKeyMapping (createSerializedKey KEY_V [ALT]) (name pasteShortcut),
       addKeyMapping (createSerializedKey KEY_V [META]) (name pasteShortcut)]"

definition undoShortcut :: KeyboardShortcut where
  "undoShortcut =
     \<lparr>name = names_UNDO,
      preconditionFn = Some (\<lambda>workspace. \<not> readOnly workspace \<and> \<not> inProgress workspace),
      callback = (\<lambda>w.
        let w1 = hideChaff w;
            w2 = undo False w1
        in (True, w2))\<rparr>"

definition registerUndo :: "registry \<Rightarrow> result" where
  "registerUndo =
     runCalls [register undoShortcut,
       addKeyMapping (createSerializedKey KEY_Z [CTRL]) (name undoShortcut),
       addKeyMapping (createSerializedKey KEY_Z [ALT]) (name undoShortcut),
       addKeyMapping (createSerializedKey KEY_Z [META]) (name undoShortcut)]"

definition redoShortcut :: KeyboardShortcut where
  "redoShortcut =
     \<lparr>name = names_REDO,
      preconditionFn = Some (\<lambda>workspace. \<not> inProgress workspace \<and> \<not> readOnly workspace),
      callback = (\<lambda>w.
        let w1 = hideChaff w;
            w2 = undo True w1
        in (True, w2))\<rparr>"

definition registerRedo :: "registry \<Rightarrow> result" where
  "registerRedo =
     runCalls [register redoShortcut,
       addKeyMapping (createSerializedKey KEY_Z [SHIFT, CTRL]) (name redoShortcut),
       addKeyMapping (createSerializedKey KEY_Z [SHIFT, ALT]) (name redoShortcut),
       addKeyMapping (createSerializedKey KEY_Z [SHIFT, META]) (name redoShortcut),
       addKeyMapping (createSerializedKey KEY_Y [CTRL]) (name redoShortcut)]"

definition registerDefaultShortcuts :: "registry \<Rightarrow> result" where
  "registerDefaultShortcuts =
     runCalls [registerEscape, registerDelete, registerCopy, registerCut,
       registerPaste, registerUndo, registerRedo]"

section \<open>Observing the registry\<close>

text \<open>The registry a call leaves behind, whether it returned or raised.\<close>

fun registryAfter :: "result \<Rightarrow> registry" where
  "registryAfter (Inl (e, r)) = r"
| "registryAfter (Inr r) = r"

text \<open>
  The last statement of the module, \<^verbatim>\<open>registerDefaultShortcuts();\<close>, runs the installer on
  the registry, which is initialized empty.
\<close>

definition defaultRegistry :: registry where
  "defaultRegistry = registryAfter (registerDefaultShortcuts emptyRegistry)"

text \<open>The candidates of a key: its list, or no candidate when the key has no list.\<close>

definition candidates :: "registry \<Rightarrow> serializedKey \<Rightarrow> string list" where
  "candidates r serializedKey =
     (case keyMap r serializedKey of None \<Rightarrow> [] | Some shortcutNames \<Rightarrow> shortcutNames)"

text \<open>
  The shortcuts the installer registers and the bindings it adds, in the order of the calls
  in the source, and the two updates they stand for.
\<close>

definition defaultShortcuts :: "KeyboardShortcut list" where
  "defaultShortcuts =
     [escapeAction, deleteShortcut, copyShortcut, cutShortcut, pasteShortcut,
      undoShortcut, redoShortcut]"

definition defaultKeyBindings :: "(serializedKey \<times> string) list" where
  "defaultKeyBindings =
     [(bareKey ESC, name escapeAction),
      (bareKey DELETE, name deleteShortcut),
      (bareKey BACKSPACE, name deleteShortcut),
      (createSerializedKey KEY_C [CTRL], name copyShortcut),
      (createSerializedKey KEY_C [ALT], name copyShortcut),
      (createSerializedKey KEY_C [META], name copyShortcut),
      (createSerializedKey KEY_X [CTRL], name cutShortcut),
      (createSerializedKey KEY_X [ALT], name cutShortcut),
      (createSerializedKey KEY_X [META], name cutShortcut),
      (createSerializedKey KEY_V [CTRL], name pasteShortcut),
      (createSerializedKey KEY_V [ALT], name pasteShortcut),
      (createSerializedKey KEY_V [META], name pasteShortcut),
      (createSerializedKey KEY_Z [CTRL], name undoShortcut),
      (createSerializedKey KEY_Z [ALT], name undoShortcut),
      (createSerializedKey KEY_Z [META], name undoShortcut),
      (createSerializedKey KEY_Z [SHIFT, CTRL], name redoShortcut),
      (createSerializedKey KEY_Z [SHIFT, ALT], name redoShortcut),
      (createSerializedKey KEY_Z [SHIFT, META], name redoShortcut),
      (createSerializedKey KEY_Y [CTRL], name redoShortcut)]"

definition namesBoundTo :: "serializedKey \<Rightarrow> string list" where
  "namesBoundTo serializedKey =
     map snd (filter (\<lambda>kn. fst kn = serializedKey) defaultKeyBindings)"

definition putShortcut ::
  "(string \<rightharpoonup> KeyboardShortcut) \<Rightarrow> KeyboardShortcut \<Rightarrow> (string \<rightharpoonup> KeyboardShortcut)" where
  "putShortcut m shortcut = m(name shortcut \<mapsto> shortcut)"

definition bindName ::
  "(serializedKey \<rightharpoonup> string list) \<Rightarrow> serializedKey \<times> string \<Rightarrow>
   (serializedKey \<rightharpoonup> string list)" where
  "bindName m kn =
     m(fst kn \<mapsto> (case m (fst kn) of None \<Rightarrow> [snd kn] | Some ns \<Rightarrow> ns @ [snd kn]))"

text \<open>
  A candidate is skipped in a world when it is no longer registered or its precondition
  is false there; it consumes the event when it is eligible and its callback returns true.
\<close>

definition skipped :: "registry \<Rightarrow> world \<Rightarrow> string \<Rightarrow> bool" where
  "skipped r w n =
     (case shortcuts r n of None \<Rightarrow> True | Some shortcut \<Rightarrow> \<not> eligible shortcut w)"

definition consumes :: "registry \<Rightarrow> string \<Rightarrow> world \<Rightarrow> bool" where
  "consumes r n w =
     (case shortcuts r n of
        None \<Rightarrow> False
      | Some shortcut \<Rightarrow> eligible shortcut w \<and> fst (callback shortcut w))"

text \<open>
  An example beyond the defaults: a shortcut with no precondition whose callback never
  consumes the event, and the default registry with the Delete key bound to \<open>escape\<close> as
  well, after \<open>delete\<close>, and one more key bound to the new shortcut.
\<close>

definition noopShortcut :: KeyboardShortcut where
  "noopShortcut = \<lparr>name = ''noop'', preconditionFn = None, callback = (\<lambda>w. (False, w))\<rparr>"

definition exampleRegistry :: registry where
  "exampleRegistry =
     registryAfter
       (runCalls [addKeyMapping (bareKey DELETE) names_ESCAPE,
          register noopShortcut,
          addKeyMapping (bareKey (OTHER 0)) (name noopShortcut)] defaultRegistry)"

text \<open>Three worlds: nothing selected; a block selected during a drag; a read-only workspace.\<close>

definition aBlock :: selectable where
  "aBlock = \<lparr>isDeletable = True, isMovable = True, isFlyout = False\<rparr>"

definition idleWorld :: world where
  "idleWorld =
     \<lparr>readOnly = False, selected = None, inProgress = False, pasteResult = True, calls = []\<rparr>"

definition dragWorld :: world where
  "dragWorld =
     \<lparr>readOnly = False, selected = Some aBlock, inProgress = True, pasteResult = True,
      calls = []\<rparr>"

definition readOnlyWorld :: world where
  "readOnlyWorld =
     \<lparr>readOnly = True, selected = Some aBlock, inProgress = False, pasteResult = True,
      calls = []\<rparr>"

section \<open>The installer in closed form\<close>

lemmas names_defs = names_ESCAPE_def names_DELETE_def names_COPY_def names_CUT_def
  names_PASTE_def names_UNDO_def names_REDO_def

lemmas key_defs = createSerializedKey_def bareKey_def

lemmas effect_defs = preventDefault_def hideChaff_def clipboard_copy_def clipboard_paste_def
  deleteBlock_def undo_def

lemma default_names:
  "name escapeAction = ''escape''" "name deleteShortcut = ''delete''"
  "name copyShortcut = ''copy''" "name cutShortcut = ''cut''"
  "name pasteShortcut = ''paste''" "name undoShortcut = ''undo''"
  "name redoShortcut = ''redo''"
  by (simp_all add: escapeAction_def deleteShortcut_def copyShortcut_def cutShortcut_def
      pasteShortcut_def undoShortcut_def redoShortcut_def names_defs)

lemma register_eq:
  "register s r = Inr (r\<lparr>shortcuts := putShortcut (shortcuts r) s\<rparr>)"
  by (simp add: register_def putShortcut_def)

lemma addKeyMapping_registered:
  "shortcuts r n \<noteq> None \<Longrightarrow>
   addKeyMapping k n r = Inr (r\<lparr>keyMap := bindName (keyMap r) (k, n)\<rparr>)"
  by (auto simp add: addKeyMapping_def bindName_def split: option.split)

lemma putShortcut_same: "putShortcut m s (name s) \<noteq> None"
  by (simp add: putShortcut_def)

lemmas install_simps = register_eq addKeyMapping_registered putShortcut_same

lemma registerEscape_eq:
  "registerEscape r =
     Inr (r\<lparr>shortcuts := putShortcut (shortcuts r) escapeAction,
            keyMap := foldl bindName (keyMap r) [(bareKey ESC, name escapeAction)]\<rparr>)"
  by (simp add: registerEscape_def install_simps)

lemma registerDelete_eq:
  "registerDelete r =
     Inr (r\<lparr>shortcuts := putShortcut (shortcuts r) deleteShortcut,
            keyMap := foldl bindName (keyMap r)
              [(bareKey DELETE, name deleteShortcut),
               (bareKey BACKSPACE, name deleteShortcut)]\<rparr>)"
  by (simp add: registerDelete_def install_simps)

lemma registerCopy_eq:
  "registerCopy r =
     Inr (r\<lparr>shortcuts := putShortcut (shortcuts r) copyShortcut,
            keyMap := foldl bindName (keyMap r)
              [(createSerializedKey KEY_C [CTRL], name copyShortcut),
               (createSerializedKey KEY_C [ALT], name copyShortcut),
               (createSerializedKey KEY_C [META], name copyShortcut)]\<rparr>)"
  by (simp add: registerCopy_def install_simps)

lemma registerCut_eq:
  "registerCut r =
     Inr (r\<lparr>shortcuts := putShortcut (shortcuts r) cutShortcut,
            keyMap := foldl bindName (keyMap r)
              [(createSerializedKey KEY_X [CTRL], name cutShortcut),
               (createSerializedKey KEY_X [ALT], name cutShortcut),
               (createSerializedKey KEY_X [META], name cutShortcut)]\<rparr>)"
  by (simp add: registerCut_def install_simps)

lemma registerPaste_eq:
  "registerPaste r =
     Inr (r\<lparr>shortcuts := putShortcut (shortcuts r) pasteShortcut,
            keyMap := foldl bindName (keyMap r)
              [(createSerializedKey KEY_V [CTRL], name pasteShortcut),
               (createSerializedKey KEY_V [ALT], name pasteShortcut),
               (createSerializedKey KEY_V [META], name pasteShortcut)]\<rparr>)"
  by (simp add: registerPaste_def install_simps)

lemma registerUndo_eq:
  "registerUndo r =
     Inr (r\<lparr>shortcuts := putShortcut (shortcuts r) undoShortcut,
            keyMap := foldl bindName (keyMap r)
              [(createSerializedKey KEY_Z [CTRL], name undoShortcut),
               (createSerializedKey KEY_Z [ALT], name undoShortcut),
               (createSerializedKey KEY_Z [META], name undoShortcut)]\<rparr>)"
  by (simp add: registerUndo_def install_simps)

lemma registerRedo_eq:
  "registerRedo r =
     Inr (r\<lparr>shortcuts := putShortcut (shortcuts r) redoShortcut,
            keyMap := foldl bindName (keyMap r)
              [(createSerializedKey KEY_Z [SHIFT, CTRL], name redoShortcut),
               (createSerializedKey KEY_Z [SHIFT, ALT], name redoShortcut),
               (createSerializedKey KEY_Z [SHIFT, META], name redoShortcut),
               (createSerializedKey KEY_Y [CTRL], name redoShortcut)]\<rparr>)"
  by (simp add: registerRedo_def install_simps)

lemma registerDefaultShortcuts_eq:
  "registerDefaultShortcuts r =
     Inr (r\<lparr>shortcuts := foldl putShortcut (shortcuts r) defaultShortcuts,
            keyMap := foldl bindName (keyMap r) defaultKeyBindings\<rparr>)"
  by (simp add: registerDefaultShortcuts_def registerEscape_eq registerDelete_eq
      registerCopy_eq registerCut_eq registerPaste_eq registerUndo_eq registerRedo_eq
      defaultShortcuts_def defaultKeyBindings_def)

lemma bindName_apply:
  "bindName m b k =
     (if fst b = k then Some ((case m k of None \<Rightarrow> [] | Some l \<Rightarrow> l) @ [snd b]) else m k)"
  by (auto simp add: bindName_def split: option.split)

lemma foldl_bindName_lookup:
  "foldl bindName m bs k =
     (case map snd (filter (\<lambda>kn. fst kn = k) bs) of
        [] \<Rightarrow> m k
      | n # ns \<Rightarrow> Some ((case m k of None \<Rightarrow> [] | Some l \<Rightarrow> l) @ n # ns))"
proof (induction bs arbitrary: m)
  case Nil
  show ?case by simp
next
  case (Cons b bs)
  have "foldl bindName m (b # bs) k = foldl bindName (bindName m b) bs k"
    by simp
  also have "\<dots> =
      (case map snd (filter (\<lambda>kn. fst kn = k) bs) of
         [] \<Rightarrow> bindName m b k
       | n # ns \<Rightarrow> Some ((case bindName m b k of None \<Rightarrow> [] | Some l \<Rightarrow> l) @ n # ns))"
    by (rule Cons.IH)
  also have "\<dots> =
      (case map snd (filter (\<lambda>kn. fst kn = k) (b # bs)) of
         [] \<Rightarrow> m k
       | n # ns \<Rightarrow> Some ((case m k of None \<Rightarrow> [] | Some l \<Rightarrow> l) @ n # ns))"
    by (simp add: bindName_apply split: list.split option.split)
  finally show ?case .
qed

lemma keyMap_after_install:
  "keyMap (registryAfter (registerDefaultShortcuts r)) k =
     (case namesBoundTo k of
        [] \<Rightarrow> keyMap r k
      | n # ns \<Rightarrow> Some (candidates r k @ n # ns))"
  by (simp add: registerDefaultShortcuts_eq foldl_bindName_lookup namesBoundTo_def
      candidates_def split: list.split)

lemma shortcuts_after_install:
  "shortcuts (registryAfter (registerDefaultShortcuts r)) =
     foldl putShortcut (shortcuts r) defaultShortcuts"
  by (simp add: registerDefaultShortcuts_eq)

lemma shortcuts_after_install_lookup:
  "shortcuts (registryAfter (registerDefaultShortcuts r)) n =
     (if n = ''redo'' then Some redoShortcut
      else if n = ''undo'' then Some undoShortcut
      else if n = ''paste'' then Some pasteShortcut
      else if n = ''cut'' then Some cutShortcut
      else if n = ''copy'' then Some copyShortcut
      else if n = ''delete'' then Some deleteShortcut
      else if n = ''escape'' then Some escapeAction
      else shortcuts r n)"
  by (simp add: shortcuts_after_install defaultShortcuts_def putShortcut_def default_names)

lemma install_returns:
  "registerDefaultShortcuts r = Inr (registryAfter (registerDefaultShortcuts r))"
  by (simp add: registerDefaultShortcuts_eq)

lemma candidates_after_install:
  "candidates (registryAfter (registerDefaultShortcuts r)) k =
     candidates r k @ namesBoundTo k"
  by (simp add: candidates_def [of "registryAfter (registerDefaultShortcuts r)"]
      keyMap_after_install split: list.split)
    (simp add: candidates_def)

lemma namesBoundTo_registered:
  "n \<in> set (namesBoundTo k) \<Longrightarrow>
   n \<in> {''escape'', ''delete'', ''copy'', ''cut'', ''paste'', ''undo'', ''redo''}"
proof -
  assume "n \<in> set (namesBoundTo k)"
  then have "n \<in> snd ` set defaultKeyBindings"
    by (auto simp add: namesBoundTo_def)
  then show ?thesis
    by (auto simp add: defaultKeyBindings_def default_names)
qed

lemma defaultRegistry_keyMap:
  "keyMap defaultRegistry k = (case namesBoundTo k of [] \<Rightarrow> None | n # ns \<Rightarrow> Some (n # ns))"
  by (simp add: defaultRegistry_def keyMap_after_install candidates_def emptyRegistry_def
      split: list.split)

lemma defaultRegistry_shortcuts:
  "shortcuts defaultRegistry n =
     (if n = ''redo'' then Some redoShortcut
      else if n = ''undo'' then Some undoShortcut
      else if n = ''paste'' then Some pasteShortcut
      else if n = ''cut'' then Some cutShortcut
      else if n = ''copy'' then Some copyShortcut
      else if n = ''delete'' then Some deleteShortcut
      else if n = ''escape'' then Some escapeAction
      else None)"
  by (simp add: defaultRegistry_def shortcuts_after_install_lookup emptyRegistry_def)

lemmas bound_defs = namesBoundTo_def defaultKeyBindings_def key_defs default_names

lemmas world_defs = idleWorld_def dragWorld_def readOnlyWorld_def aBlock_def

lemmas shortcut_defs = escapeAction_def deleteShortcut_def copyShortcut_def cutShortcut_def
  pasteShortcut_def undoShortcut_def redoShortcut_def

lemma exampleRegistry_shortcuts:
  "shortcuts exampleRegistry n =
     (if n = ''noop'' then Some noopShortcut else shortcuts defaultRegistry n)"
  by (simp add: exampleRegistry_def install_simps defaultRegistry_shortcuts names_defs
      putShortcut_def noopShortcut_def)

lemma exampleRegistry_keyMap:
  "keyMap exampleRegistry k =
     (if k = bareKey (OTHER 0) then Some [''noop'']
      else if k = bareKey DELETE then Some [''delete'', ''escape'']
      else keyMap defaultRegistry k)"
  by (simp add: exampleRegistry_def install_simps defaultRegistry_shortcuts names_defs
      putShortcut_def noopShortcut_def bindName_apply defaultRegistry_keyMap bound_defs)

section \<open>The default shortcuts, read off the source\<close>

lemma eligible_defaults:
  "eligible escapeAction w = (\<not> readOnly w)"
  "eligible deleteShortcut w =
     (\<not> readOnly w \<and> (\<exists>b. selected w = Some b \<and> isDeletable b))"
  "eligible copyShortcut w =
     (\<not> readOnly w \<and> \<not> inProgress w \<and>
      (\<exists>b. selected w = Some b \<and> isDeletable b \<and> isMovable b))"
  "eligible cutShortcut w =
     (\<not> readOnly w \<and> \<not> inProgress w \<and>
      (\<exists>b. selected w = Some b \<and> isDeletable b \<and> isMovable b \<and> \<not> isFlyout b))"
  "eligible pasteShortcut w = (\<not> readOnly w \<and> \<not> inProgress w)"
  "eligible undoShortcut w = (\<not> readOnly w \<and> \<not> inProgress w)"
  "eligible redoShortcut w = (\<not> readOnly w \<and> \<not> inProgress w)"
  by (auto simp add: eligible_def shortcut_defs selectedAnd_def split: option.splits)

lemma callback_defaults:
  "callback escapeAction w = (True, w\<lparr>calls := calls w @ [HideChaff]\<rparr>)"
  "callback deleteShortcut w =
     (if inProgress w then (False, w\<lparr>calls := calls w @ [PreventDefault]\<rparr>)
      else (True, w\<lparr>calls := calls w @ [PreventDefault, DeleteBlock (selected w)]\<rparr>))"
  "callback copyShortcut w =
     (True, w\<lparr>calls := calls w @ [PreventDefault, HideChaff, ClipboardCopy (selected w)]\<rparr>)"
  "callback cutShortcut w =
     (True, w\<lparr>calls := calls w @ [ClipboardCopy (selected w), DeleteBlock (selected w)]\<rparr>)"
  "callback pasteShortcut w = (pasteResult w, w\<lparr>calls := calls w @ [ClipboardPaste]\<rparr>)"
  "callback undoShortcut w = (True, w\<lparr>calls := calls w @ [HideChaff, Undo False]\<rparr>)"
  "callback redoShortcut w = (True, w\<lparr>calls := calls w @ [HideChaff, Undo True]\<rparr>)"
  by (simp_all add: shortcut_defs effect_defs Let_def)

lemma defaultRegistry_bound:
  "keyMap defaultRegistry (bareKey ESC) = Some [''escape'']"
  "keyMap defaultRegistry (bareKey DELETE) = Some [''delete'']"
  "keyMap defaultRegistry (bareKey BACKSPACE) = Some [''delete'']"
  "keyMap defaultRegistry (createSerializedKey KEY_C [CTRL]) = Some [''copy'']"
  "keyMap defaultRegistry (createSerializedKey KEY_C [ALT]) = Some [''copy'']"
  "keyMap defaultRegistry (createSerializedKey KEY_C [META]) = Some [''copy'']"
  "keyMap defaultRegistry (createSerializedKey KEY_X [CTRL]) = Some [''cut'']"
  "keyMap defaultRegistry (createSerializedKey KEY_X [ALT]) = Some [''cut'']"
  "keyMap defaultRegistry (createSerializedKey KEY_X [META]) = Some [''cut'']"
  "keyMap defaultRegistry (createSerializedKey KEY_V [CTRL]) = Some [''paste'']"
  "keyMap defaultRegistry (createSerializedKey KEY_V [ALT]) = Some [''paste'']"
  "keyMap defaultRegistry (createSerializedKey KEY_V [META]) = Some [''paste'']"
  "keyMap defaultRegistry (createSerializedKey KEY_Z [CTRL]) = Some [''undo'']"
  "keyMap defaultRegistry (createSerializedKey KEY_Z [ALT]) = Some [''undo'']"
  "keyMap defaultRegistry (createSerializedKey KEY_Z [META]) = Some [''undo'']"
  "keyMap defaultRegistry (createSerializedKey KEY_Z [CTRL, SHIFT]) = Some [''redo'']"
  "keyMap defaultRegistry (createSerializedKey KEY_Z [ALT, SHIFT]) = Some [''redo'']"
  "keyMap defaultRegistry (createSerializedKey KEY_Z [META, SHIFT]) = Some [''redo'']"
  "keyMap defaultRegistry (createSerializedKey KEY_Y [CTRL]) = Some [''redo'']"
  by (simp_all add: defaultRegistry_keyMap bound_defs)

section \<open>Resolution\<close>

lemma resolveNames_skip:
  "list_all (skipped r w) pre \<Longrightarrow> resolveNames r (pre @ rest) w = resolveNames r rest w"
  by (induction pre) (auto simp add: skipped_def split: option.splits)

lemma resolveNames_unhandled:
  "\<forall>n \<in> set ns. \<forall>w'. \<not> consumes r n w' \<Longrightarrow> fst (resolveNames r ns w) = None"
proof (induction ns arbitrary: w)
  case Nil
  show ?case by simp
next
  case (Cons n ns)
  then have rest: "\<And>w'. fst (resolveNames r ns w') = None"
    by simp
  from Cons.prems have "\<not> consumes r n w"
    by simp
  then show ?case
    by (auto simp add: consumes_def rest split: option.splits prod.splits bool.splits)
qed

lemma resolveNames_handled:
  "fst (resolveNames r ns w) = Some n \<Longrightarrow> n \<in> set ns \<and> (\<exists>w'. consumes r n w')"
proof (induction ns arbitrary: w)
  case Nil
  then show ?case by simp
next
  case (Cons m ns)
  show ?case
  proof (cases "consumes r m w")
    case True
    with Cons.prems have "n = m"
      by (auto simp add: consumes_def split: option.splits prod.splits bool.splits)
    with True show ?thesis by auto
  next
    case False
    then obtain w' where "fst (resolveNames r ns w') = Some n"
      using Cons.prems
      by (auto simp add: consumes_def split: option.splits prod.splits bool.splits if_splits)
    from Cons.IH [OF this] show ?thesis by auto
  qed
qed

lemma resolve_single:
  "keyMap r k = Some [n] \<Longrightarrow> shortcuts r n = Some s \<Longrightarrow>
   resolve r k w =
     (if eligible s w then
        (if fst (callback s w) then (Some n, snd (callback s w))
         else (None, snd (callback s w)))
      else (None, w))"
  by (simp add: resolve_def split: prod.split bool.split)

text \<open>
  Claim C1. For every registry, serialized key and world (the context with the event),
  \<open>resolve\<close> tries the names bound to the key strictly in the order of the key's list,
  which is the order in which \<open>addKeyMapping\<close> appended them. A key with no list or an
  empty list is unhandled. Candidates that are no longer registered or whose precondition
  is false are skipped, leaving the world as it is; the callback of the first eligible
  candidate is invoked; if it returns true the resolution stops, handled by that name, in
  the world the callback left; if it returns false the resolution continues with the
  candidates after it, in the world the callback left. If every candidate is skipped the
  key is unhandled and the world is unchanged; if no candidate can pass its precondition
  and return true the key is unhandled; and a key handled by a name is handled by one of
  its candidates, which passed its precondition and returned true.
\<close>

theorem resolve_insertion_order:
  "(keyMap r k = None \<or> keyMap r k = Some [] \<longrightarrow> resolve r k w = (None, w)) \<and>
   (keyMap r k = Some (pre @ n # post) \<and> list_all (skipped r w) pre \<and>
      shortcuts r n = Some s \<and> eligible s w \<longrightarrow>
      resolve r k w =
        (if fst (callback s w) then (Some n, snd (callback s w))
         else resolveNames r post (snd (callback s w)))) \<and>
   (keyMap r k = Some ns \<and> list_all (skipped r w) ns \<longrightarrow> resolve r k w = (None, w)) \<and>
   ((\<forall>m \<in> set (candidates r k). \<forall>w'. \<not> consumes r m w') \<longrightarrow> fst (resolve r k w) = None) \<and>
   (fst (resolve r k w) = Some h \<longrightarrow>
      h \<in> set (candidates r k) \<and> (\<exists>w'. consumes r h w'))"
proof (intro conjI impI)
  assume "keyMap r k = None \<or> keyMap r k = Some []"
  then show "resolve r k w = (None, w)"
    by (auto simp add: resolve_def)
next
  assume a: "keyMap r k = Some (pre @ n # post) \<and> list_all (skipped r w) pre \<and>
      shortcuts r n = Some s \<and> eligible s w"
  then have "resolve r k w = resolveNames r (n # post) w"
    by (simp add: resolve_def resolveNames_skip)
  also have "\<dots> = (if fst (callback s w) then (Some n, snd (callback s w))
         else resolveNames r post (snd (callback s w)))"
    using a by (simp split: prod.split bool.split)
  finally show "resolve r k w =
        (if fst (callback s w) then (Some n, snd (callback s w))
         else resolveNames r post (snd (callback s w)))" .
next
  assume "keyMap r k = Some ns \<and> list_all (skipped r w) ns"
  then show "resolve r k w = (None, w)"
    using resolveNames_skip [of r w ns "[]"] by (simp add: resolve_def)
next
  assume "\<forall>m \<in> set (candidates r k). \<forall>w'. \<not> consumes r m w'"
  then show "fst (resolve r k w) = None"
    using resolveNames_unhandled [of "candidates r k" r w]
    by (simp add: resolve_def candidates_def split: option.splits)
next
  assume "fst (resolve r k w) = Some h"
  then have "fst (resolveNames r (candidates r k) w) = Some h"
    by (simp add: resolve_def candidates_def split: option.splits)
  then show "h \<in> set (candidates r k)" and "\<exists>w'. consumes r h w'"
    using resolveNames_handled [of r "candidates r k" w h] by simp_all
qed


theorem resolve_insertion_order_witness:
  "resolve exampleRegistry (bareKey KEY_Y) idleWorld = (None, idleWorld) \<and>
   resolve exampleRegistry (bareKey DELETE) idleWorld =
     (Some ''escape'', idleWorld\<lparr>calls := [HideChaff]\<rparr>) \<and>
   resolve exampleRegistry (bareKey DELETE) dragWorld =
     (Some ''escape'', dragWorld\<lparr>calls := [PreventDefault, HideChaff]\<rparr>) \<and>
   resolve exampleRegistry (bareKey DELETE) readOnlyWorld = (None, readOnlyWorld) \<and>
   fst (resolve exampleRegistry (bareKey (OTHER 0)) idleWorld) = None \<and>
   ''escape'' \<in> set (candidates exampleRegistry (bareKey DELETE))"
proof -
  have k: "keyMap exampleRegistry (bareKey KEY_Y) = None"
    "keyMap exampleRegistry (bareKey DELETE) = Some ([] @ ''delete'' # [''escape''])"
    "keyMap exampleRegistry (bareKey DELETE) = Some ([''delete''] @ ''escape'' # [])"
    "keyMap exampleRegistry (bareKey DELETE) = Some [''delete'', ''escape'']"
    "candidates exampleRegistry (bareKey (OTHER 0)) = [''noop'']"
    by (simp_all add: exampleRegistry_keyMap defaultRegistry_keyMap bound_defs candidates_def)
  have s: "shortcuts exampleRegistry ''delete'' = Some deleteShortcut"
    "shortcuts exampleRegistry ''escape'' = Some escapeAction"
    "shortcuts exampleRegistry ''noop'' = Some noopShortcut"
    by (simp_all add: exampleRegistry_shortcuts defaultRegistry_shortcuts)
  have e: "eligible deleteShortcut dragWorld" "eligible escapeAction idleWorld"
    "eligible escapeAction (preventDefault dragWorld)"
    "\<not> eligible deleteShortcut idleWorld"
    "\<not> eligible deleteShortcut readOnlyWorld" "\<not> eligible escapeAction readOnlyWorld"
    by (simp_all add: eligible_def shortcut_defs world_defs selectedAnd_def effect_defs)
  have c: "callback deleteShortcut dragWorld = (False, preventDefault dragWorld)"
    "callback escapeAction idleWorld = (True, idleWorld\<lparr>calls := [HideChaff]\<rparr>)"
    "callback escapeAction (preventDefault dragWorld) =
       (True, dragWorld\<lparr>calls := [PreventDefault, HideChaff]\<rparr>)"
    by (simp_all add: shortcut_defs world_defs effect_defs)
  have n: "\<forall>m \<in> set (candidates exampleRegistry (bareKey (OTHER 0))). \<forall>w'.
      \<not> consumes exampleRegistry m w'"
    by (simp add: k consumes_def s noopShortcut_def)
  from resolve_insertion_order [of exampleRegistry "bareKey KEY_Y" idleWorld]
    resolve_insertion_order [of exampleRegistry "bareKey DELETE" idleWorld
      "[''delete'']" "''escape''" "[]" escapeAction]
    resolve_insertion_order [of exampleRegistry "bareKey DELETE" dragWorld
      "[]" "''delete''" "[''escape'']" deleteShortcut]
    resolve_insertion_order [of exampleRegistry "bareKey DELETE" readOnlyWorld
      _ _ _ _ "[''delete'', ''escape'']"]
    resolve_insertion_order [of exampleRegistry "bareKey (OTHER 0)" idleWorld]
    resolve_insertion_order [of exampleRegistry "bareKey DELETE" idleWorld
      _ _ _ _ _ "''escape''"]
  show ?thesis
    using n by (simp add: k s e c skipped_def)
qed

section \<open>Serialized keys\<close>

text \<open>
  Claim C3. For all primary keys and all modifier collections drawn from control, alt,
  shift and meta, two serialized keys are equal exactly when the primary keys are equal
  and the modifier collections are equal as sets: collections that are equal as sets give
  the same serialized key for the same primary key, in whatever order they are written,
  and a different primary key or a different modifier set gives a different serialized key.
\<close>

theorem createSerializedKey_canonical:
  "set M1 \<subseteq> modifierKeys \<Longrightarrow> set M2 \<subseteq> modifierKeys \<Longrightarrow>
   (createSerializedKey k1 M1 = createSerializedKey k2 M2) = (k1 = k2 \<and> set M1 = set M2)"
proof -
  assume m1: "set M1 \<subseteq> modifierKeys" and m2: "set M2 \<subseteq> modifierKeys"
  have "set M1 = set M2 \<longleftrightarrow>
      (CTRL \<in> set M1) = (CTRL \<in> set M2) \<and> (ALT \<in> set M1) = (ALT \<in> set M2) \<and>
      (SHIFT \<in> set M1) = (SHIFT \<in> set M2) \<and> (META \<in> set M1) = (META \<in> set M2)"
    using m1 m2 unfolding modifierKeys_def by blast
  then show ?thesis
    by (simp add: createSerializedKey_def)
qed

theorem createSerializedKey_canonical_witness:
  "createSerializedKey KEY_Z [SHIFT, CTRL] = createSerializedKey KEY_Z [CTRL, SHIFT] \<and>
   createSerializedKey KEY_Z [CTRL] \<noteq> createSerializedKey KEY_Z [SHIFT, CTRL] \<and>
   createSerializedKey KEY_Z [CTRL] \<noteq> createSerializedKey KEY_Y [CTRL]"
proof -
  have a: "set [SHIFT, CTRL] \<subseteq> modifierKeys" "set [CTRL, SHIFT] \<subseteq> modifierKeys"
    "set [CTRL] \<subseteq> modifierKeys"
    by (simp_all add: modifierKeys_def)
  from createSerializedKey_canonical [OF a(1) a(2), of KEY_Z KEY_Z]
    createSerializedKey_canonical [OF a(3) a(1), of KEY_Z KEY_Z]
    createSerializedKey_canonical [OF a(3) a(3), of KEY_Z KEY_Y]
  show ?thesis by auto
qed

section \<open>The installer\<close>

text \<open>
  Claim C9. From every registry, each of the seven registration functions and the
  installer as a whole return without raising \<open>ShortcutNotRegisteredError\<close>: every
  \<open>addKeyMapping\<close> call for a name comes after the \<open>register\<close> call for that name. The
  installer appends to the candidates of each key the names it binds to it, every name it
  binds is registered in the registry it leaves, and if every binding of the starting
  registry refers to a registered shortcut, so does every binding of the registry it
  leaves.
\<close>

theorem installer_never_raises:
  "registerEscape r = Inr (registryAfter (registerEscape r)) \<and>
   registerDelete r = Inr (registryAfter (registerDelete r)) \<and>
   registerCopy r = Inr (registryAfter (registerCopy r)) \<and>
   registerCut r = Inr (registryAfter (registerCut r)) \<and>
   registerPaste r = Inr (registryAfter (registerPaste r)) \<and>
   registerUndo r = Inr (registryAfter (registerUndo r)) \<and>
   registerRedo r = Inr (registryAfter (registerRedo r)) \<and>
   registerDefaultShortcuts r = Inr (registryAfter (registerDefaultShortcuts r)) \<and>
   (\<forall>k. candidates (registryAfter (registerDefaultShortcuts r)) k =
          candidates r k @ namesBoundTo k) \<and>
   (\<forall>k n. n \<in> set (namesBoundTo k) \<longrightarrow>
          shortcuts (registryAfter (registerDefaultShortcuts r)) n \<noteq> None) \<and>
   ((\<forall>k. \<forall>n \<in> set (candidates r k). shortcuts r n \<noteq> None) \<longrightarrow>
    (\<forall>k. \<forall>n \<in> set (candidates (registryAfter (registerDefaultShortcuts r)) k).
       shortcuts (registryAfter (registerDefaultShortcuts r)) n \<noteq> None))"
proof -
  have each: "registerEscape r = Inr (registryAfter (registerEscape r))"
    "registerDelete r = Inr (registryAfter (registerDelete r))"
    "registerCopy r = Inr (registryAfter (registerCopy r))"
    "registerCut r = Inr (registryAfter (registerCut r))"
    "registerPaste r = Inr (registryAfter (registerPaste r))"
    "registerUndo r = Inr (registryAfter (registerUndo r))"
    "registerRedo r = Inr (registryAfter (registerRedo r))"
    by (simp_all add: registerEscape_eq registerDelete_eq registerCopy_eq registerCut_eq
        registerPaste_eq registerUndo_eq registerRedo_eq)
  have new: "shortcuts (registryAfter (registerDefaultShortcuts r)) n \<noteq> None"
    if "n \<in> set (namesBoundTo k)" for k n
  proof -
    from that
    have "n \<in> {''escape'', ''delete'', ''copy'', ''cut'', ''paste'', ''undo'', ''redo''}"
      by (rule namesBoundTo_registered)
    then show ?thesis
      by (auto simp add: shortcuts_after_install_lookup)
  qed
  have old: "shortcuts (registryAfter (registerDefaultShortcuts r)) n \<noteq> None"
    if "shortcuts r n \<noteq> None" for n
    using that by (simp add: shortcuts_after_install_lookup)
  have inv: "\<forall>k. \<forall>n \<in> set (candidates (registryAfter (registerDefaultShortcuts r)) k).
       shortcuts (registryAfter (registerDefaultShortcuts r)) n \<noteq> None"
    if "\<forall>k. \<forall>n \<in> set (candidates r k). shortcuts r n \<noteq> None"
    using that new old by (auto simp add: candidates_after_install)
  from each install_returns [of r] candidates_after_install [of r] new inv
  show ?thesis by blast
qed

theorem installer_never_raises_witness:
  "registerDefaultShortcuts emptyRegistry = Inr defaultRegistry \<and>
   ''escape'' \<in> set (namesBoundTo (bareKey ESC)) \<and>
   shortcuts defaultRegistry ''escape'' \<noteq> None \<and>
   ''redo'' \<in> set (candidates (registryAfter (registerDefaultShortcuts defaultRegistry))
      (createSerializedKey KEY_Y [CTRL])) \<and>
   shortcuts (registryAfter (registerDefaultShortcuts defaultRegistry)) ''redo'' \<noteq> None"
proof -
  have d: "registryAfter (registerDefaultShortcuts emptyRegistry) = defaultRegistry"
    by (simp add: defaultRegistry_def)
  have esc: "''escape'' \<in> set (namesBoundTo (bareKey ESC))"
    by (simp add: bound_defs)
  have redo: "''redo'' \<in> set (namesBoundTo (createSerializedKey KEY_Y [CTRL]))"
    by (simp add: bound_defs)
  have c: "candidates defaultRegistry k = namesBoundTo k" for k
    using candidates_after_install [of emptyRegistry k]
    by (simp add: d) (simp add: candidates_def emptyRegistry_def)
  have inv: "\<forall>k. \<forall>n \<in> set (candidates defaultRegistry k).
      shortcuts defaultRegistry n \<noteq> None"
  proof (intro allI ballI)
    fix k n
    assume "n \<in> set (candidates defaultRegistry k)"
    then have "n \<in> set (namesBoundTo k)"
      by (simp add: c)
    then have "n \<in> {''escape'', ''delete'', ''copy'', ''cut'', ''paste'', ''undo'', ''redo''}"
      by (rule namesBoundTo_registered)
    then show "shortcuts defaultRegistry n \<noteq> None"
      by (auto simp add: defaultRegistry_shortcuts)
  qed
  from installer_never_raises [of emptyRegistry] installer_never_raises [of defaultRegistry]
    inv esc redo
  show ?thesis
    by (simp add: d)
qed

section \<open>Binding a key to an unregistered name\<close>

text \<open>
  Claim C4. For every serialized key and every name that is not the name of a currently
  registered shortcut, \<open>addKeyMapping\<close> raises \<open>ShortcutNotRegisteredError\<close> and the registry
  at that moment is the one it was called on: the key map, and the map of shortcuts, are
  unmodified.
\<close>

theorem addKeyMapping_unregistered:
  "shortcuts r shortcutName = None \<Longrightarrow>
   addKeyMapping serializedKey shortcutName r = Inl (ShortcutNotRegisteredError, r)"
  by (simp add: addKeyMapping_def)

theorem addKeyMapping_unregistered_witness:
  "shortcuts emptyRegistry ''undo'' = None \<and>
   addKeyMapping (createSerializedKey KEY_Z [CTRL]) ''undo'' emptyRegistry =
     Inl (ShortcutNotRegisteredError, emptyRegistry)"
proof -
  have h: "shortcuts emptyRegistry ''undo'' = None"
    by (simp add: emptyRegistry_def)
  from addKeyMapping_unregistered [OF h] h show ?thesis
    by simp
qed


section \<open>The catalogue of default shortcuts\<close>

text \<open>
  Claim C5. In the default registry the name \<open>copy\<close> is the copy shortcut and ctrl+C is
  bound to it; its precondition holds exactly when the workspace is not read-only, no
  gesture is in progress, and an item is selected that is both deletable and movable. In
  particular, when the selected item is deletable but not movable, dispatching ctrl+C is
  unhandled and calls nothing.
\<close>

theorem copy_precondition:
  "shortcuts defaultRegistry names_COPY = Some copyShortcut \<and>
   keyMap defaultRegistry (createSerializedKey KEY_C [CTRL]) = Some [names_COPY] \<and>
   eligible copyShortcut w =
     (\<not> readOnly w \<and> \<not> inProgress w \<and>
      (\<exists>b. selected w = Some b \<and> isDeletable b \<and> isMovable b)) \<and>
   (selected w = Some b \<and> isDeletable b \<and> \<not> isMovable b \<longrightarrow>
      resolve defaultRegistry (createSerializedKey KEY_C [CTRL]) w = (None, w))"
proof -
  have s: "shortcuts defaultRegistry ''copy'' = Some copyShortcut"
    by (simp add: defaultRegistry_shortcuts)
  have "resolve defaultRegistry (createSerializedKey KEY_C [CTRL]) w = (None, w)"
    if "selected w = Some b \<and> isDeletable b \<and> \<not> isMovable b"
    using that by (simp add: resolve_single [OF defaultRegistry_bound(4) s] eligible_defaults)
  then show ?thesis
    by (simp add: names_defs s defaultRegistry_bound eligible_defaults)
qed

theorem copy_precondition_witness:
  "selected (idleWorld\<lparr>selected := Some (aBlock\<lparr>isMovable := False\<rparr>)\<rparr>) =
     Some (aBlock\<lparr>isMovable := False\<rparr>) \<and>
   isDeletable (aBlock\<lparr>isMovable := False\<rparr>) \<and>
   \<not> isMovable (aBlock\<lparr>isMovable := False\<rparr>) \<and>
   resolve defaultRegistry (createSerializedKey KEY_C [CTRL])
     (idleWorld\<lparr>selected := Some (aBlock\<lparr>isMovable := False\<rparr>)\<rparr>) =
     (None, idleWorld\<lparr>selected := Some (aBlock\<lparr>isMovable := False\<rparr>)\<rparr>)"
  using copy_precondition [of "idleWorld\<lparr>selected := Some (aBlock\<lparr>isMovable := False\<rparr>)\<rparr>"
      "aBlock\<lparr>isMovable := False\<rparr>"]
  by (simp add: aBlock_def)

text \<open>
  Claim C6. In the default registry both Delete and Backspace are bound to \<open>delete\<close>, the
  delete shortcut. Its precondition holds exactly when the workspace is not read-only and
  a deletable item is selected. Its callback first calls \<open>preventDefault\<close> on the event;
  then, when a gesture is in progress, it returns false and deletes nothing; otherwise it
  deletes the selected item and returns true.
\<close>

theorem delete_shortcut:
  "keyMap defaultRegistry (bareKey DELETE) = Some [names_DELETE] \<and>
   keyMap defaultRegistry (bareKey BACKSPACE) = Some [names_DELETE] \<and>
   shortcuts defaultRegistry names_DELETE = Some deleteShortcut \<and>
   eligible deleteShortcut w =
     (\<not> readOnly w \<and> (\<exists>b. selected w = Some b \<and> isDeletable b)) \<and>
   callback deleteShortcut w =
     (if inProgress w then (False, w\<lparr>calls := calls w @ [PreventDefault]\<rparr>)
      else (True, w\<lparr>calls := calls w @ [PreventDefault, DeleteBlock (selected w)]\<rparr>))"
  by (simp add: names_defs defaultRegistry_bound defaultRegistry_shortcuts eligible_defaults
      callback_defaults)

theorem delete_shortcut_witness:
  "callback deleteShortcut dragWorld = (False, dragWorld\<lparr>calls := [PreventDefault]\<rparr>) \<and>
   callback deleteShortcut (idleWorld\<lparr>selected := Some aBlock\<rparr>) =
     (True, idleWorld\<lparr>selected := Some aBlock,
        calls := [PreventDefault, DeleteBlock (Some aBlock)]\<rparr>) \<and>
   eligible deleteShortcut dragWorld \<and> \<not> eligible deleteShortcut idleWorld"
  using delete_shortcut [of dragWorld]
    delete_shortcut [of "idleWorld\<lparr>selected := Some aBlock\<rparr>"]
    delete_shortcut [of idleWorld]
  by (simp add: world_defs)

text \<open>
  Claim C7. In the default registry, in a world whose workspace is not read-only and
  where no gesture is in progress, ctrl+Z, alt+Z and meta+Z are each handled by \<open>undo\<close>,
  whose callback hides the chaff, calls \<open>workspace.undo(false)\<close> and returns true; and
  ctrl+shift+Z, alt+shift+Z, meta+shift+Z and ctrl+Y are each handled by \<open>redo\<close>, whose
  callback hides the chaff, calls \<open>workspace.undo(true)\<close> and returns true.
\<close>

theorem undo_redo_dispatch:
  assumes "\<not> readOnly w" and "\<not> inProgress w"
  shows "resolve defaultRegistry (createSerializedKey KEY_Z [CTRL]) w =
      (Some names_UNDO, w\<lparr>calls := calls w @ [HideChaff, Undo False]\<rparr>) \<and>
    resolve defaultRegistry (createSerializedKey KEY_Z [ALT]) w =
      (Some names_UNDO, w\<lparr>calls := calls w @ [HideChaff, Undo False]\<rparr>) \<and>
    resolve defaultRegistry (createSerializedKey KEY_Z [META]) w =
      (Some names_UNDO, w\<lparr>calls := calls w @ [HideChaff, Undo False]\<rparr>) \<and>
    resolve defaultRegistry (createSerializedKey KEY_Z [CTRL, SHIFT]) w =
      (Some names_REDO, w\<lparr>calls := calls w @ [HideChaff, Undo True]\<rparr>) \<and>
    resolve defaultRegistry (createSerializedKey KEY_Z [ALT, SHIFT]) w =
      (Some names_REDO, w\<lparr>calls := calls w @ [HideChaff, Undo True]\<rparr>) \<and>
    resolve defaultRegistry (createSerializedKey KEY_Z [META, SHIFT]) w =
      (Some names_REDO, w\<lparr>calls := calls w @ [HideChaff, Undo True]\<rparr>) \<and>
    resolve defaultRegistry (createSerializedKey KEY_Y [CTRL]) w =
      (Some names_REDO, w\<lparr>calls := calls w @ [HideChaff, Undo True]\<rparr>) \<and>
    shortcuts defaultRegistry names_UNDO = Some undoShortcut \<and>
    callback undoShortcut w = (True, w\<lparr>calls := calls w @ [HideChaff, Undo False]\<rparr>) \<and>
    shortcuts defaultRegistry names_REDO = Some redoShortcut \<and>
    callback redoShortcut w = (True, w\<lparr>calls := calls w @ [HideChaff, Undo True]\<rparr>)"
proof -
  have u: "shortcuts defaultRegistry ''undo'' = Some undoShortcut"
    and r: "shortcuts defaultRegistry ''redo'' = Some redoShortcut"
    by (simp_all add: defaultRegistry_shortcuts)
  have eu: "eligible undoShortcut w" and er: "eligible redoShortcut w"
    using assms by (simp_all add: eligible_defaults)
  show ?thesis
    by (simp add: names_defs u r eu er callback_defaults
        resolve_single [OF defaultRegistry_bound(13) u]
        resolve_single [OF defaultRegistry_bound(14) u]
        resolve_single [OF defaultRegistry_bound(15) u]
        resolve_single [OF defaultRegistry_bound(16) r]
        resolve_single [OF defaultRegistry_bound(17) r]
        resolve_single [OF defaultRegistry_bound(18) r]
        resolve_single [OF defaultRegistry_bound(19) r])
qed

theorem undo_redo_dispatch_witness:
  "\<not> readOnly idleWorld \<and> \<not> inProgress idleWorld \<and>
   resolve defaultRegistry (createSerializedKey KEY_Z [CTRL]) idleWorld =
     (Some ''undo'', idleWorld\<lparr>calls := [HideChaff, Undo False]\<rparr>) \<and>
   resolve defaultRegistry (createSerializedKey KEY_Z [CTRL, SHIFT]) idleWorld =
     (Some ''redo'', idleWorld\<lparr>calls := [HideChaff, Undo True]\<rparr>)"
proof -
  have h: "\<not> readOnly idleWorld" "\<not> inProgress idleWorld"
    by (simp_all add: idleWorld_def)
  from undo_redo_dispatch [OF h] h show ?thesis
    by (simp add: names_defs idleWorld_def)
qed

text \<open>
  Claim C8. In the default registry ctrl+X, alt+X and meta+X are bound to \<open>cut\<close>, the cut
  shortcut. Its precondition holds exactly when the workspace is not read-only, no gesture
  is in progress, and the selected item is deletable, movable and not in a flyout. Its
  callback copies the selected item to the clipboard, then deletes it, and returns true.
\<close>

theorem cut_shortcut:
  "keyMap defaultRegistry (createSerializedKey KEY_X [CTRL]) = Some [names_CUT] \<and>
   keyMap defaultRegistry (createSerializedKey KEY_X [ALT]) = Some [names_CUT] \<and>
   keyMap defaultRegistry (createSerializedKey KEY_X [META]) = Some [names_CUT] \<and>
   shortcuts defaultRegistry names_CUT = Some cutShortcut \<and>
   eligible cutShortcut w =
     (\<not> readOnly w \<and> \<not> inProgress w \<and>
      (\<exists>b. selected w = Some b \<and> isDeletable b \<and> isMovable b \<and> \<not> isFlyout b)) \<and>
   callback cutShortcut w =
     (True, w\<lparr>calls := calls w @ [ClipboardCopy (selected w), DeleteBlock (selected w)]\<rparr>)"
  by (simp add: names_defs defaultRegistry_bound defaultRegistry_shortcuts eligible_defaults
      callback_defaults)

theorem cut_shortcut_witness:
  "eligible cutShortcut (idleWorld\<lparr>selected := Some aBlock\<rparr>) \<and>
   \<not> eligible cutShortcut (idleWorld\<lparr>selected := Some (aBlock\<lparr>isFlyout := True\<rparr>)\<rparr>) \<and>
   callback cutShortcut (idleWorld\<lparr>selected := Some aBlock\<rparr>) =
     (True, idleWorld\<lparr>selected := Some aBlock,
        calls := [ClipboardCopy (Some aBlock), DeleteBlock (Some aBlock)]\<rparr>)"
  using cut_shortcut [of "idleWorld\<lparr>selected := Some aBlock\<rparr>"]
    cut_shortcut [of "idleWorld\<lparr>selected := Some (aBlock\<lparr>isFlyout := True\<rparr>)\<rparr>"]
  by (simp add: world_defs)

text \<open>
  Claim C10. In every world the callbacks of escape, copy, cut, undo and redo return
  true; the callback of delete returns false exactly when a gesture is in progress; the
  callback of paste returns what the clipboard reports. So when one of escape, copy, cut,
  undo and redo is the next candidate and is eligible, the resolution stops there, handled
  by it, whatever candidates follow.
\<close>

theorem default_callbacks_consume:
  "fst (callback escapeAction w) \<and> fst (callback copyShortcut w) \<and>
   fst (callback cutShortcut w) \<and> fst (callback undoShortcut w) \<and>
   fst (callback redoShortcut w) \<and>
   fst (callback deleteShortcut w) = (\<not> inProgress w) \<and>
   fst (callback pasteShortcut w) = pasteResult w \<and>
   (s \<in> set [escapeAction, copyShortcut, cutShortcut, undoShortcut, redoShortcut] \<and>
      shortcuts r n = Some s \<and> eligible s w \<longrightarrow>
      resolveNames r (n # rest) w = (Some n, snd (callback s w)))"
proof -
  have "resolveNames r (n # rest) w = (Some n, snd (callback s w))"
    if "s \<in> set [escapeAction, copyShortcut, cutShortcut, undoShortcut, redoShortcut] \<and>
      shortcuts r n = Some s \<and> eligible s w"
  proof -
    from that have "fst (callback s w)"
      by (auto simp add: callback_defaults)
    then have "callback s w = (True, snd (callback s w))"
      by (cases "callback s w") simp
    then have "(case callback s w of
          (True, w') \<Rightarrow> (Some n, w')
        | (False, w') \<Rightarrow> resolveNames r rest w') = (Some n, snd (callback s w))"
      by (cases "callback s w") simp
    with that show ?thesis
      by simp
  qed
  then show ?thesis
    by (simp add: callback_defaults)
qed

theorem default_callbacks_consume_witness:
  "fst (callback deleteShortcut idleWorld) \<and> \<not> fst (callback deleteShortcut dragWorld) \<and>
   fst (callback pasteShortcut idleWorld) \<and>
   \<not> fst (callback pasteShortcut (idleWorld\<lparr>pasteResult := False\<rparr>)) \<and>
   resolveNames defaultRegistry [''escape'', ''undo''] idleWorld =
     (Some ''escape'', idleWorld\<lparr>calls := [HideChaff]\<rparr>)"
proof -
  have s: "shortcuts defaultRegistry ''escape'' = Some escapeAction"
    by (simp add: defaultRegistry_shortcuts)
  have e: "eligible escapeAction idleWorld"
    by (simp add: eligible_defaults idleWorld_def)
  from default_callbacks_consume [of idleWorld escapeAction defaultRegistry "''escape''"
      "[''undo'']"]
    default_callbacks_consume [of dragWorld]
    default_callbacks_consume [of "idleWorld\<lparr>pasteResult := False\<rparr>"]
    s e
  show ?thesis
    by (simp add: world_defs callback_defaults)
qed

end
